theory Spec2Isabelle
  imports Main
begin

section \<open>The alert model of the medication reminder backend\<close>

text \<open>
  The Mongoose model \<^verbatim>\<open>Alert\<close> carries the only scheduling logic of the repository:
  the virtual \<^verbatim>\<open>status\<close> and the instance methods \<^verbatim>\<open>calculateNextTrigger\<close>,
  \<^verbatim>\<open>markTriggered\<close> and \<^verbatim>\<open>snooze\<close>. The methods mutate the document in memory and
  then hand it to \<^verbatim>\<open>save()\<close>. The embedding below follows the mutation of the document:
  a method takes the document and returns the document it leaves behind. What
  \<^verbatim>\<open>save()\<close> does with it (validation, the timestamps, the write to the database, the
  promise it returns) is not part of the model.
\<close>

subsection \<open>Time values and the calendar of the Date object\<close>

text \<open>
  A \<^verbatim>\<open>Date\<close> holds a time value, the milliseconds since 1970-01-01T00:00:00Z. The
  functions of this subsection are the abstract operations of the ECMAScript specification
  (section "Date Objects") that the methods used by the source are defined by, under the
  names they have there. Time values are modelled as integers. The source's are doubles
  that hold such integers exactly up to \<open>8.64 * 10^15\<close> (the year 275760), where \<^verbatim>\<open>TimeClip\<close>
  ends the range of a \<^verbatim>\<open>Date\<close>; the model has no such end.

  Local time is the time value shifted by the offset \<open>tza\<close> of the zone in milliseconds:
  one zone, whose offset does not change (no daylight saving transitions).
\<close>

definition msPerSecond :: int where "msPerSecond = 1000"
definition msPerMinute :: int where "msPerMinute = 60000"
definition msPerHour :: int where "msPerHour = 3600000"
definition msPerDay :: int where "msPerDay = 86400000"

definition Day :: "int \<Rightarrow> int" where
  "Day t = t div msPerDay"

definition TimeWithinDay :: "int \<Rightarrow> int" where
  "TimeWithinDay t = t mod msPerDay"

definition DaysInYear :: "int \<Rightarrow> int" where
  "DaysInYear y =
     (if y mod 4 \<noteq> 0 then 365
      else if y mod 100 \<noteq> 0 then 366
      else if y mod 400 \<noteq> 0 then 365
      else 366)"

definition DayFromYear :: "int \<Rightarrow> int" where
  "DayFromYear y =
     365 * (y - 1970) + (y - 1969) div 4 - (y - 1901) div 100 + (y - 1601) div 400"

text \<open>
  \<^verbatim>\<open>YearFromTime(t)\<close> is the largest year \<open>y\<close> with \<open>TimeFromYear(y) \<le> t\<close>. The search
  climbs from a year that is not after it: a year has at most 366 days and at least 365.
  It ends because \<open>DayFromYear\<close> grows with the year.
\<close>

function year_search :: "int \<Rightarrow> int \<Rightarrow> int" where
  "year_search d y = (if DayFromYear (y + 1) \<le> d then year_search d (y + 1) else y)"
  by pat_completeness auto
termination
proof (relation "measure (\<lambda>(d, y). nat (d - DayFromYear y))")
  show "wf (measure (\<lambda>(d, y). nat (d - DayFromYear y)))"
    by simp
next
  fix d y :: int
  assume le: "DayFromYear (y + 1) \<le> d"
  define a b c a' b' c' where
    "a = (y - 1969) div 4" and "b = (y - 1901) div 100" and "c = (y - 1601) div 400" and
    "a' = (y + 1 - 1969) div 4" and "b' = (y + 1 - 1901) div 100" and
    "c' = (y + 1 - 1601) div 400"
  have a: "a \<le> a'"
    unfolding a_def a'_def by (rule zdiv_mono1) simp_all
  have "b' \<le> (y - 1901 + 100) div 100"
    unfolding b'_def by (rule zdiv_mono1) simp_all
  also have "\<dots> = b + 1"
    unfolding b_def by simp
  finally have b: "b' \<le> b + 1" .
  have c: "c \<le> c'"
    unfolding c_def c'_def by (rule zdiv_mono1) simp_all
  have "365 * (y - 1970) + a - b + c < 365 * (y + 1 - 1970) + a' - b' + c'"
    using a b c by (simp add: algebra_simps)
  then have "DayFromYear y < DayFromYear (y + 1)"
    unfolding DayFromYear_def a_def b_def c_def a'_def b'_def c'_def .
  with le show "((d, y + 1), (d, y)) \<in> measure (\<lambda>(d, y). nat (d - DayFromYear y))"
    by simp
qed

declare year_search.simps [simp del]

definition YearFromTime :: "int \<Rightarrow> int" where
  "YearFromTime t =
     (let d = Day t
      in year_search d (1970 + (if 0 \<le> d then d div 366 else d div 365)))"

definition InLeapYear :: "int \<Rightarrow> int" where
  "InLeapYear t = (if DaysInYear (YearFromTime t) = 366 then 1 else 0)"

definition DayWithinYear :: "int \<Rightarrow> int" where
  "DayWithinYear t = Day t - DayFromYear (YearFromTime t)"

definition MonthFromTime :: "int \<Rightarrow> int" where
  "MonthFromTime t =
     (let d = DayWithinYear t; l = InLeapYear t
      in if d < 31 then 0
         else if d < 59 + l then 1
         else if d < 90 + l then 2
         else if d < 120 + l then 3
         else if d < 151 + l then 4
         else if d < 181 + l then 5
         else if d < 212 + l then 6
         else if d < 243 + l then 7
         else if d < 273 + l then 8
         else if d < 304 + l then 9
         else if d < 334 + l then 10
         else 11)"

definition DateFromTime :: "int \<Rightarrow> int" where
  "DateFromTime t =
     (let d = DayWithinYear t; l = InLeapYear t; m = MonthFromTime t
      in if m = 0 then d + 1
         else if m = 1 then d - 30
         else if m = 2 then d - 58 - l
         else if m = 3 then d - 89 - l
         else if m = 4 then d - 119 - l
         else if m = 5 then d - 150 - l
         else if m = 6 then d - 180 - l
         else if m = 7 then d - 211 - l
         else if m = 8 then d - 242 - l
         else if m = 9 then d - 272 - l
         else if m = 10 then d - 303 - l
         else d - 333 - l)"


definition HourFromTime :: "int \<Rightarrow> int" where
  "HourFromTime t = (t div msPerHour) mod 24"

definition MinFromTime :: "int \<Rightarrow> int" where
  "MinFromTime t = (t div msPerMinute) mod 60"

definition SecFromTime :: "int \<Rightarrow> int" where
  "SecFromTime t = (t div msPerSecond) mod 60"

definition msFromTime :: "int \<Rightarrow> int" where
  "msFromTime t = t mod msPerSecond"

definition MakeTime :: "int \<Rightarrow> int \<Rightarrow> int \<Rightarrow> int \<Rightarrow> int" where
  "MakeTime hour minute sec ms =
     hour * msPerHour + minute * msPerMinute + sec * msPerSecond + ms"

text \<open>
  \<^verbatim>\<open>MakeDay(year, month, date)\<close> finds the first day of the month \<open>month mod 12\<close> of the
  year \<open>year + month div 12\<close> and counts on from it. \<open>month_start\<close> is the day within
  the year on which a month begins, the boundaries of \<^verbatim>\<open>MonthFromTime\<close>.
\<close>

definition month_start :: "int \<Rightarrow> int \<Rightarrow> int" where
  "month_start m l =
     (if m = 0 then 0
      else if m = 1 then 31
      else if m = 2 then 59 + l
      else if m = 3 then 90 + l
      else if m = 4 then 120 + l
      else if m = 5 then 151 + l
      else if m = 6 then 181 + l
      else if m = 7 then 212 + l
      else if m = 8 then 243 + l
      else if m = 9 then 273 + l
      else if m = 10 then 304 + l
      else 334 + l)"

definition MakeDay :: "int \<Rightarrow> int \<Rightarrow> int \<Rightarrow> int" where
  "MakeDay year month date =
     (let ym = year + month div 12; mn = month mod 12
      in DayFromYear ym + month_start mn (if DaysInYear ym = 366 then 1 else 0) + date - 1)"

text \<open>
  The days of the month \<open>m\<close> (months are counted from 0); \<open>l\<close> is 1 in a leap year and
  0 in any other, as \<^verbatim>\<open>InLeapYear\<close> gives it.
\<close>

definition DaysInMonth :: "int \<Rightarrow> int \<Rightarrow> int" where
  "DaysInMonth m l =
     (if m = 1 then 28 + l
      else if m = 3 \<or> m = 5 \<or> m = 8 \<or> m = 10 then 30
      else 31)"

definition MakeDate :: "int \<Rightarrow> int \<Rightarrow> int" where
  "MakeDate day time = day * msPerDay + time"

definition LocalTime :: "int \<Rightarrow> int \<Rightarrow> int" where
  "LocalTime tza t = t + tza"

definition UTC :: "int \<Rightarrow> int \<Rightarrow> int" where
  "UTC tza t = t - tza"

text \<open>The methods of \<^verbatim>\<open>Date.prototype\<close> that the source calls.\<close>

definition getDate :: "int \<Rightarrow> int \<Rightarrow> int" where
  "getDate tza t = DateFromTime (LocalTime tza t)"

definition getMinutes :: "int \<Rightarrow> int \<Rightarrow> int" where
  "getMinutes tza t = MinFromTime (LocalTime tza t)"

definition setHours :: "int \<Rightarrow> int \<Rightarrow> int \<Rightarrow> int \<Rightarrow> int \<Rightarrow> int \<Rightarrow> int" where
  "setHours tza t hour minute sec ms =
     UTC tza (MakeDate (Day (LocalTime tza t)) (MakeTime hour minute sec ms))"

definition setDate :: "int \<Rightarrow> int \<Rightarrow> int \<Rightarrow> int" where
  "setDate tza t date =
     (let lt = LocalTime tza t
      in UTC tza (MakeDate (MakeDay (YearFromTime lt) (MonthFromTime lt) date)
                           (TimeWithinDay lt)))"

definition setMinutes :: "int \<Rightarrow> int \<Rightarrow> int \<Rightarrow> int" where
  "setMinutes tza t minute =
     (let lt = LocalTime tza t
      in UTC tza (MakeDate (Day lt)
                           (MakeTime (HourFromTime lt) minute (SecFromTime lt) (msFromTime lt))))"

text \<open>
  A wall-clock reading written out, \<open>year-month-day\<close> at \<open>hour:minute\<close>, as the time
  value it has in the zone (months are counted from 1 here, as they are written).
\<close>

definition wall_clock :: "int \<Rightarrow> int \<Rightarrow> int \<Rightarrow> int \<Rightarrow> int \<Rightarrow> int \<Rightarrow> int" where
  "wall_clock tza year month date hour minute =
     UTC tza (MakeDate (MakeDay year (month - 1) date) (MakeTime hour minute 0 0))"

subsection \<open>The alert document\<close>

text \<open>
  The fields of \<^verbatim>\<open>alertSchema\<close>. The two references are kept as the identifiers they
  are. \<^verbatim>\<open>lastTriggered\<close> and \<^verbatim>\<open>nextTrigger\<close> are dates or \<^verbatim>\<open>null\<close>. The three
  numbers are integers in the model, as the data model of the specification has them (the
  schema's type \<^verbatim>\<open>Number\<close> has fractions too, which the model leaves out); the schema
  bounds \<^verbatim>\<open>snoozeTime\<close> (1 to 60) and \<^verbatim>\<open>maxSnoozes\<close> (0 to 10) when a document is
  validated.
\<close>

datatype frequency = daily | weekly | monthly | custom

datatype weekday = monday | tuesday | wednesday | thursday | friday | saturday | sunday

record alert =
  user :: string
  medication :: string
  time :: string
  frequency :: frequency
  daysOfWeek :: "weekday list"
  isActive :: bool
  lastTriggered :: "int option"
  nextTrigger :: "int option"
  message :: string
  sound :: string
  vibration :: bool
  snoozeTime :: int
  maxSnoozes :: int
  currentSnoozes :: int

text \<open>The virtual \<^verbatim>\<open>status\<close>; the constructors stand for the three strings it returns.\<close>

datatype status = inactive | overdue | active

definition status :: "alert \<Rightarrow> status" where
  "status a =
     (if \<not> isActive a then inactive
      else if currentSnoozes a \<ge> maxSnoozes a then overdue
      else active)"

subsection \<open>The time of day of an alert\<close>

text \<open>
  The schema (and the request validator) admit a \<^verbatim>\<open>time\<close> that matches
  \<^verbatim>\<open>/^([0-1]?[0-9]|2[0-3]):[0-5][0-9]$/\<close>.
\<close>

definition char_in :: "char \<Rightarrow> char \<Rightarrow> char \<Rightarrow> bool" where
  "char_in lo hi c = ((of_char lo :: nat) \<le> of_char c \<and> (of_char c :: nat) \<le> of_char hi)"

fun matches_time :: "string \<Rightarrow> bool" where
  "matches_time [h, s, m1, m2] =
     (char_in CHR ''0'' CHR ''9'' h \<and> s = CHR '':'' \<and>
      char_in CHR ''0'' CHR ''5'' m1 \<and> char_in CHR ''0'' CHR ''9'' m2)"
| "matches_time [h1, h2, s, m1, m2] =
     (((char_in CHR ''0'' CHR ''1'' h1 \<and> char_in CHR ''0'' CHR ''9'' h2) \<or>
       (h1 = CHR ''2'' \<and> char_in CHR ''0'' CHR ''3'' h2)) \<and> s = CHR '':'' \<and>
      char_in CHR ''0'' CHR ''5'' m1 \<and> char_in CHR ''0'' CHR ''9'' m2)"
| "matches_time _ = False"

text \<open>
  \<^verbatim>\<open>this.time.split(':').map(Number)\<close>, of which the source takes the first two
  elements. \<open>split_on\<close> is \<^verbatim>\<open>String.prototype.split\<close> with a one-character separator.
  \<open>Number\<close> is modelled on the strings of decimal digits, which are the only ones a
  matching \<^verbatim>\<open>time\<close> splits into; on any other string it is \<open>None\<close>, and the model
  then says nothing about what the source computes (\<open>NaN\<close> for most strings, a number for
  those in another numeral syntax of JavaScript).
\<close>

fun split_on :: "char \<Rightarrow> string \<Rightarrow> string list" where
  "split_on sep [] = [[]]"
| "split_on sep (c # cs) =
     (if c = sep then [] # split_on sep cs
      else (case split_on sep cs of p # ps \<Rightarrow> (c # p) # ps | [] \<Rightarrow> [[c]]))"

definition digit_value :: "char \<Rightarrow> int" where
  "digit_value c = int (of_char c) - 48"

definition Number :: "string \<Rightarrow> int option" where
  "Number s =
     (if s \<noteq> [] \<and> list_all (char_in CHR ''0'' CHR ''9'') s
      then Some (foldl (\<lambda>n c. 10 * n + digit_value c) 0 s)
      else None)"

definition time_parts :: "string \<Rightarrow> (int \<times> int) option" where
  "time_parts s =
     (case map Number (split_on CHR '':'' s) of
        Some hours # Some minutes # _ \<Rightarrow> Some (hours, minutes)
      | _ \<Rightarrow> None)"

subsection \<open>The methods\<close>

text \<open>
  Every \<^verbatim>\<open>new Date()\<close> of the source reads the system clock. The model takes each
  reading as an argument, in the order in which the source makes them, after the zone
  offset \<open>tza\<close>.

  \<^verbatim>\<open>calculateNextTrigger\<close> reads the clock twice: \<open>now\<close> is the reading it compares
  against, \<open>fresh\<close> the second one, whose date the trigger is built on. It consults
  neither \<^verbatim>\<open>frequency\<close> nor \<^verbatim>\<open>daysOfWeek\<close>. The result is \<open>None\<close> only where
  \<open>time_parts\<close> is, outside the model of \<open>Number\<close>.
\<close>

definition calculateNextTrigger :: "int \<Rightarrow> alert \<Rightarrow> int \<Rightarrow> int \<Rightarrow> alert option" where
  "calculateNextTrigger tza a now fresh =
     (case time_parts (time a) of
        None \<Rightarrow> None
      | Some (hours, minutes) \<Rightarrow>
          (let nextTrigger0 = setHours tza fresh hours minutes 0 0;
               nextTrigger1 =
                 (if nextTrigger0 \<le> now
                  then setDate tza nextTrigger0 (getDate tza nextTrigger0 + 1)
                  else nextTrigger0)
           in Some (a\<lparr>nextTrigger := Some nextTrigger1\<rparr>)))"

text \<open>
  \<^verbatim>\<open>markTriggered\<close> reads the clock once itself and then calls
  \<^verbatim>\<open>calculateNextTrigger\<close>, which reads it twice.
\<close>

definition markTriggered :: "int \<Rightarrow> alert \<Rightarrow> int \<Rightarrow> int \<Rightarrow> int \<Rightarrow> alert option" where
  "markTriggered tza a triggered now fresh =
     calculateNextTrigger tza (a\<lparr>lastTriggered := Some triggered, currentSnoozes := 0\<rparr>)
       now fresh"

text \<open>
  \<^verbatim>\<open>snooze\<close> throws \<^verbatim>\<open>new Error('Maximum snoozes reached')\<close> before it touches the
  document, or changes it and returns. The model returns how the call ended together with
  the document it leaves behind.
\<close>

datatype error = Error string

datatype outcome = Returned | Threw error

definition snooze :: "int \<Rightarrow> alert \<Rightarrow> int \<Rightarrow> outcome \<times> alert" where
  "snooze tza a now =
     (if currentSnoozes a \<ge> maxSnoozes a
      then (Threw (Error ''Maximum snoozes reached''), a)
      else (Returned,
            a\<lparr>currentSnoozes := currentSnoozes a + 1,
              nextTrigger := Some (setMinutes tza now (getMinutes tza now + snoozeTime a))\<rparr>))"

subsection \<open>Callers and vocabulary of the statements\<close>

text \<open>
  A wall-clock day (a day number of local time) at a time of day, as a time value.
\<close>

definition at_time_of_day :: "int \<Rightarrow> int \<Rightarrow> int \<Rightarrow> int \<Rightarrow> int" where
  "at_time_of_day tza day hours minutes =
     UTC tza (MakeDate day (MakeTime hours minutes 0 0))"



text \<open>
  A caller that calls \<^verbatim>\<open>snooze\<close> on one document again and again, each call with the
  clock reading of its own moment, until a call throws.
\<close>

fun snooze_calls :: "int \<Rightarrow> alert \<Rightarrow> int list \<Rightarrow> outcome \<times> alert" where
  "snooze_calls tza a [] = (Returned, a)"
| "snooze_calls tza a (now # later) =
     (case snooze tza a now of
        (Returned, a') \<Rightarrow> snooze_calls tza a' later
      | (Threw e, a') \<Rightarrow> (Threw e, a'))"




text \<open>
  A document as the schema's defaults make it, for a reminder at eight in the morning.
\<close>

definition morning_alert :: alert where
  "morning_alert =
     \<lparr>user = ''u1'', medication = ''m1'', time = ''08:00'', frequency = daily,
      daysOfWeek = [], isActive = True, lastTriggered = None, nextTrigger = None,
      message = ''Time to take your medication!'', sound = ''default'', vibration = True,
      snoozeTime = 15, maxSnoozes = 3, currentSnoozes = 0\<rparr>"

subsection \<open>Facts of the calendar\<close>

text \<open>
  The search finds the year of the definition: the largest whose first day is not after
  the day of the time value.
\<close>

lemma year_search_bounds:
  "DayFromYear y \<le> d \<Longrightarrow>
   DayFromYear (year_search d y) \<le> d \<and> d < DayFromYear (year_search d y + 1)"
proof (induction d y rule: year_search.induct)
  case (1 d y)
  show ?case
  proof (cases "DayFromYear (y + 1) \<le> d")
    case True
    with "1.IH" show ?thesis
      by (subst (1 2) year_search.simps) simp
  next
    case False
    with "1.prems" show ?thesis
      by (subst (1 2) year_search.simps) simp
  qed
qed

lemma DayFromYear_1970_plus:
  "DayFromYear (1970 + k) = 365 * k + (k + 1) div 4 - (k + 69) div 100 + (k + 369) div 400"
  by (simp add: DayFromYear_def add.commute)

lemma DayFromYear_after_1970:
  assumes "0 \<le> k"
  shows "DayFromYear (1970 + k) \<le> 366 * k"
proof -
  define a b c where "a = (k + 1) div 4" and "b = (k + 69) div 100" and "c = (k + 369) div 400"
  have a: "4 * a \<le> k + 1"
    unfolding a_def by simp
  have b: "0 \<le> b"
    unfolding b_def using assms by simp
  have c: "400 * c \<le> k + 369"
    unfolding c_def by simp
  have "a - b + c \<le> k"
  proof (cases "k \<le> 1")
    case True
    with assms have "a = 0" "c = 0"
      by (simp_all add: a_def c_def div_pos_pos_trivial)
    with b assms show ?thesis
      by simp
  next
    case False
    with a b c show ?thesis
      by linarith
  qed
  then show ?thesis
    by (simp add: DayFromYear_1970_plus a_def b_def c_def)
qed

lemma DayFromYear_before_1970:
  assumes "k < 0"
  shows "DayFromYear (1970 + k) \<le> 365 * k"
proof -
  define a b c where "a = (k + 1) div 4" and "b = (k + 69) div 100" and "c = (k + 369) div 400"
  have a: "4 * a \<le> k + 1"
    unfolding a_def by simp
  have "k + 69 = 100 * b + (k + 69) mod 100"
    unfolding b_def by simp
  moreover have "(k + 69) mod 100 < 100"
    by simp
  ultimately have b: "k - 30 \<le> 100 * b"
    by linarith
  have c: "400 * c \<le> k + 369"
    unfolding c_def by simp
  have "a - b + c \<le> 0"
  proof (cases "k = - 1")
    case True
    then show ?thesis
      by (simp add: a_def b_def c_def)
  next
    case False
    with assms a b c show ?thesis
      by linarith
  qed
  then show ?thesis
    by (simp add: DayFromYear_1970_plus a_def b_def c_def)
qed

lemma YearFromTime_largest:
  "DayFromYear (YearFromTime t) \<le> Day t \<and> Day t < DayFromYear (YearFromTime t + 1)"
proof -
  define d where "d = Day t"
  define y where "y = 1970 + (if 0 \<le> d then d div 366 else d div 365)"
  have y: "YearFromTime t = year_search d y"
    by (simp add: YearFromTime_def Let_def d_def y_def)
  have "DayFromYear y \<le> d"
  proof (cases "0 \<le> d")
    case True
    then have "DayFromYear (1970 + d div 366) \<le> 366 * (d div 366)"
      by (intro DayFromYear_after_1970) simp
    also have "\<dots> \<le> d"
      by simp
    finally show ?thesis
      using True by (simp add: y_def)
  next
    case False
    then have "DayFromYear (1970 + d div 365) \<le> 365 * (d div 365)"
      by (intro DayFromYear_before_1970) simp
    also have "\<dots> \<le> d"
      by simp
    finally show ?thesis
      using False by (simp add: y_def)
  qed
  from year_search_bounds [OF this] show ?thesis
    unfolding y d_def .
qed

lemma Day_TimeWithinDay: "Day t * msPerDay + TimeWithinDay t = t"
  by (simp add: Day_def TimeWithinDay_def)

lemma MonthFromTime_range: "0 \<le> MonthFromTime t \<and> MonthFromTime t \<le> 11"
  by (simp add: MonthFromTime_def Let_def)

lemma DateFromTime_month_start:
  "DateFromTime t = DayWithinYear t - month_start (MonthFromTime t) (InLeapYear t) + 1"
  by (simp add: DateFromTime_def month_start_def Let_def)

lemma MakeDay_of_time:
  "MakeDay (YearFromTime t) (MonthFromTime t) (DateFromTime t + k) = Day t + k"
proof -
  have m: "MonthFromTime t div 12 = 0" "MonthFromTime t mod 12 = MonthFromTime t"
    using MonthFromTime_range [of t] by simp_all
  show ?thesis
    by (simp add: MakeDay_def Let_def m DateFromTime_month_start DayWithinYear_def
        InLeapYear_def)
qed

lemma setDate_getDate_plus: "setDate tza t (getDate tza t + k) = t + k * msPerDay"
proof -
  have "MakeDate (Day (LocalTime tza t) + k) (TimeWithinDay (LocalTime tza t))
        = LocalTime tza t + k * msPerDay"
    using Day_TimeWithinDay [of "LocalTime tza t"]
    by (simp add: MakeDate_def algebra_simps)
  then show ?thesis
    by (simp add: setDate_def getDate_def Let_def MakeDay_of_time UTC_def LocalTime_def)
qed

text \<open>A time value is its day, hour, minute, second and millisecond put together.\<close>

lemma time_split:
  "(t::int) =
     (t div 3600000) div 24 * 86400000 + (t div 3600000) mod 24 * 3600000 +
     (t div 60000) mod 60 * 60000 + (t div 1000) mod 60 * 1000 + t mod 1000"
proof -
  have a: "t div 60000 = t div 1000 div 60"
    by (simp add: zdiv_zmult2_eq)
  have b: "t div 3600000 = t div 1000 div 60 div 60"
    by (simp add: zdiv_zmult2_eq)
  define s where "s = t div 1000"
  define m where "m = s div 60"
  define h where "h = m div 60"
  define d where "d = h div 24"
  define r4 r3 r2 r1
    where "r4 = h mod 24" and "r3 = m mod 60" and "r2 = s mod 60" and "r1 = t mod 1000"
  have 1: "s * 1000 + r1 = t"
    unfolding s_def r1_def by simp
  have 2: "m * 60 + r2 = s"
    unfolding m_def r2_def by simp
  have 3: "h * 60 + r3 = m"
    unfolding h_def r3_def by simp
  have 4: "d * 24 + r4 = h"
    unfolding d_def r4_def by simp
  have "(((d * 24 + r4) * 60 + r3) * 60 + r2) * 1000 + r1 = t"
    by (simp only: 1 2 3 4)
  then have "t = d * 86400000 + r4 * 3600000 + r3 * 60000 + r2 * 1000 + r1"
    by (simp add: algebra_simps)
  then show ?thesis
    by (simp only: a b d_def r4_def r3_def r2_def r1_def h_def m_def s_def)
qed

lemma Day_hours: "Day t = (t div msPerHour) div 24"
  by (simp add: Day_def msPerDay_def msPerHour_def zdiv_zmult2_eq)

lemma MakeTime_components:
  "Day t * msPerDay +
     MakeTime (HourFromTime t) (MinFromTime t + k) (SecFromTime t) (msFromTime t)
   = t + k * msPerMinute"
proof -
  define d r4 r3 r2 r1 where "d = (t div 3600000) div 24" and "r4 = (t div 3600000) mod 24"
    and "r3 = (t div 60000) mod 60" and "r2 = (t div 1000) mod 60" and "r1 = t mod 1000"
  have t: "t = d * 86400000 + r4 * 3600000 + r3 * 60000 + r2 * 1000 + r1"
    unfolding d_def r4_def r3_def r2_def r1_def by (rule time_split)
  have "d * 86400000 + (r4 * 3600000 + (r3 + k) * 60000 + r2 * 1000 + r1) = t + k * 60000"
    by (subst t) (simp add: algebra_simps)
  then show ?thesis
    by (simp only: Day_hours MakeTime_def HourFromTime_def MinFromTime_def SecFromTime_def
        msFromTime_def msPerDay_def msPerHour_def msPerMinute_def msPerSecond_def
        d_def r4_def r3_def r2_def r1_def)
qed

lemma setMinutes_getMinutes_plus:
  "setMinutes tza t (getMinutes tza t + k) = t + k * msPerMinute"
  using MakeTime_components [of "LocalTime tza t" k]
  by (simp add: setMinutes_def getMinutes_def Let_def MakeDate_def UTC_def LocalTime_def)

lemma div_qr: "0 \<le> r \<Longrightarrow> r < b \<Longrightarrow> (q * b + r) div b = (q::int)"
  by (simp add: div_pos_pos_trivial)

lemma mod_qr: "0 \<le> r \<Longrightarrow> r < b \<Longrightarrow> (q * b + r) mod b = (r::int)"
  by (simp add: mod_pos_pos_trivial)

lemma MakeTime_hm: "MakeTime h m 0 0 = h * 3600000 + m * 60000"
  by (simp add: MakeTime_def msPerHour_def msPerMinute_def)

lemma MakeTime_range:
  assumes "0 \<le> h" "h \<le> 23" "0 \<le> m" "m \<le> 59"
  shows "0 \<le> MakeTime h m 0 0 \<and> MakeTime h m 0 0 \<le> 86340000"
  using assms by (simp add: MakeTime_hm)

lemma Day_bounds: "Day t * msPerDay \<le> t \<and> t < Day t * msPerDay + msPerDay"
proof -
  have "0 \<le> TimeWithinDay t \<and> TimeWithinDay t < msPerDay"
    by (simp add: TimeWithinDay_def msPerDay_def)
  then show ?thesis
    using Day_TimeWithinDay [of t] by linarith
qed

lemma Day_MakeDate:
  assumes "0 \<le> x" "x < msPerDay"
  shows "Day (MakeDate d x) = d" "TimeWithinDay (MakeDate d x) = x"
  using assms by (simp_all add: Day_def TimeWithinDay_def MakeDate_def div_qr mod_qr)

lemma fields_of_local:
  assumes "0 \<le> h" "h \<le> 23" "0 \<le> m" "m \<le> 59"
  shows "Day (MakeDate d (MakeTime h m 0 0)) = d"
    and "HourFromTime (MakeDate d (MakeTime h m 0 0)) = h"
    and "MinFromTime (MakeDate d (MakeTime h m 0 0)) = m"
    and "SecFromTime (MakeDate d (MakeTime h m 0 0)) = 0"
    and "msFromTime (MakeDate d (MakeTime h m 0 0)) = 0"
proof -
  let ?L = "MakeDate d (MakeTime h m 0 0)"
  have r: "0 \<le> MakeTime h m 0 0" "MakeTime h m 0 0 < msPerDay"
    using MakeTime_range [OF assms] by (simp_all add: msPerDay_def)
  show "Day ?L = d"
    using r by (rule Day_MakeDate)
  have L1: "?L = (d * 24 + h) * 3600000 + m * 60000"
    by (simp add: MakeDate_def MakeTime_hm msPerDay_def algebra_simps)
  have "?L div 3600000 = d * 24 + h"
    unfolding L1 using assms by (intro div_qr) simp_all
  moreover have "(d * 24 + h) mod 24 = h"
    using assms by (intro mod_qr) simp_all
  ultimately show "HourFromTime ?L = h"
    by (simp only: HourFromTime_def msPerHour_def)
  have L2: "?L = ((d * 24 + h) * 60 + m) * 60000"
    by (simp add: MakeDate_def MakeTime_hm msPerDay_def algebra_simps)
  have "?L div 60000 = (d * 24 + h) * 60 + m"
    unfolding L2 by simp
  moreover have "((d * 24 + h) * 60 + m) mod 60 = m"
    using assms by (intro mod_qr) simp_all
  ultimately show "MinFromTime ?L = m"
    by (simp only: MinFromTime_def msPerMinute_def)
  have L3: "?L = (((d * 24 + h) * 60 + m) * 60) * 1000"
    by (simp add: MakeDate_def MakeTime_hm msPerDay_def algebra_simps)
  have "?L div 1000 = ((d * 24 + h) * 60 + m) * 60"
    unfolding L3 by simp
  moreover have "(((d * 24 + h) * 60 + m) * 60) mod 60 = 0"
    by simp
  ultimately show "SecFromTime ?L = 0"
    by (simp only: SecFromTime_def msPerSecond_def)
  show "msFromTime ?L = 0"
    unfolding L3 by (simp add: msFromTime_def msPerSecond_def)
qed

text \<open>
  The calendar reads back the dates it makes: \<^verbatim>\<open>getFullYear\<close>, \<^verbatim>\<open>getMonth\<close> and
  \<^verbatim>\<open>getDate\<close> of a time value made for a date of the calendar are that date.
\<close>

lemma div_succ:
  fixes z n :: int
  assumes "0 < n"
  shows "(z + 1) div n - z div n = (if (z + 1) mod n = 0 then 1 else 0)"
proof -
  define q r where "q = (z + 1) div n" and "r = (z + 1) mod n"
  have r: "0 \<le> r" "r < n"
    using assms by (simp_all add: r_def)
  have z: "z + 1 = q * n + r"
    by (simp add: q_def r_def)
  show ?thesis
  proof (cases "r = 0")
    case True
    with z have "z = (q - 1) * n + (n - 1)"
      by (simp add: algebra_simps)
    moreover have "((q - 1) * n + (n - 1)) div n = q - 1"
      using assms by (intro div_qr) simp_all
    ultimately have "z div n = q - 1"
      by simp
    with True show ?thesis
      by (simp add: q_def r_def)
  next
    case False
    with r have "0 \<le> r - 1" "r - 1 < n"
      by simp_all
    then have "(q * n + (r - 1)) div n = q"
      by (rule div_qr)
    moreover from z have "z = q * n + (r - 1)"
      by simp
    ultimately have "z div n = q"
      by simp
    with False show ?thesis
      by (simp add: q_def r_def)
  qed
qed

lemma mod_shift: "(y - n * c) mod n = y mod n" for y n c :: int
  using mod_mult_self2 [of y n "- c"] by simp

lemma leap_step_4:
  "(y - 1968) div 4 - (y - 1969) div 4 = (if y mod 4 = 0 then 1 else 0)" for y :: int
proof -
  have "(y - 1969 + 1) mod 4 = (y - 4 * 492) mod 4"
    by simp
  then have "(y - 1969 + 1) mod 4 = y mod 4"
    by (simp only: mod_shift)
  with div_succ [of 4 "y - 1969"] show ?thesis
    by simp
qed

lemma leap_step_100:
  "(y - 1900) div 100 - (y - 1901) div 100 = (if y mod 100 = 0 then 1 else 0)" for y :: int
proof -
  have "(y - 1901 + 1) mod 100 = (y - 100 * 19) mod 100"
    by simp
  then have "(y - 1901 + 1) mod 100 = y mod 100"
    by (simp only: mod_shift)
  with div_succ [of 100 "y - 1901"] show ?thesis
    by simp
qed

lemma leap_step_400:
  "(y - 1600) div 400 - (y - 1601) div 400 = (if y mod 400 = 0 then 1 else 0)" for y :: int
proof -
  have "(y - 1601 + 1) mod 400 = (y - 400 * 4) mod 400"
    by simp
  then have "(y - 1601 + 1) mod 400 = y mod 400"
    by (simp only: mod_shift)
  with div_succ [of 400 "y - 1601"] show ?thesis
    by simp
qed

lemma DayFromYear_next: "DayFromYear (y + 1) = DayFromYear y + DaysInYear y"
proof -
  define a b c a' b' c' where
    "a = (y - 1969) div 4" and "b = (y - 1901) div 100" and "c = (y - 1601) div 400" and
    "a' = (y - 1968) div 4" and "b' = (y - 1900) div 100" and "c' = (y - 1600) div 400"
  have d: "DayFromYear (y + 1) = DayFromYear y + (365 + (a' - a) - (b' - b) + (c' - c))"
    by (simp add: DayFromYear_def a_def b_def c_def a'_def b'_def c'_def)
  have 1: "4 dvd y" if "100 dvd y"
    using that by (rule dvd_trans [rotated]) simp
  have 2: "100 dvd y" if "400 dvd y"
    using that by (rule dvd_trans [rotated]) simp
  have "365 + (a' - a) - (b' - b) + (c' - c) = DaysInYear y"
    unfolding a_def b_def c_def a'_def b'_def c'_def leap_step_4 leap_step_100 leap_step_400
    using 1 2 by (auto simp add: DaysInYear_def mod_eq_0_iff_dvd)
  with d show ?thesis
    by simp
qed

lemma DaysInYear_range: "365 \<le> DaysInYear y \<and> DaysInYear y \<le> 366"
  by (simp add: DaysInYear_def)

lemma DayFromYear_mono: "y \<le> y' \<Longrightarrow> DayFromYear y \<le> DayFromYear y'"
proof (induction y' rule: int_ge_induct)
  case base
  show ?case by simp
next
  case (step i)
  with DaysInYear_range [of i] show ?case
    by (simp add: DayFromYear_next)
qed

lemma YearFromTime_unique:
  assumes "DayFromYear y \<le> Day t" and "Day t < DayFromYear (y + 1)"
  shows "YearFromTime t = y"
proof (rule ccontr)
  assume ne: "YearFromTime t \<noteq> y"
  let ?y = "YearFromTime t"
  note b = YearFromTime_largest [of t]
  show False
  proof (cases "?y < y")
    case True
    then have "DayFromYear (?y + 1) \<le> DayFromYear y"
      by (intro DayFromYear_mono) simp
    with b assms(1) show False
      by simp
  next
    case False
    with ne have "DayFromYear (y + 1) \<le> DayFromYear ?y"
      by (intro DayFromYear_mono) simp
    with b assms(2) show False
      by simp
  qed
qed

lemma calendar_date_read_back:
  assumes m: "0 \<le> m" "m \<le> 11"
    and d: "1 \<le> date" "date \<le> DaysInMonth m (if DaysInYear y = 366 then 1 else 0)"
    and x: "0 \<le> x" "x < msPerDay"
  shows "YearFromTime (MakeDate (MakeDay y m date) x) = y"
    and "MonthFromTime (MakeDate (MakeDay y m date) x) = m"
    and "DateFromTime (MakeDate (MakeDay y m date) x) = date"
proof -
  define l :: int where "l = (if DaysInYear y = 366 then 1 else 0)"
  define w where "w = month_start m l + date - 1"
  let ?t = "MakeDate (MakeDay y m date) x"
  have l: "DaysInYear y = 365 + l"
    using DaysInYear_range [of y] by (simp add: l_def DaysInYear_def)
  have lr: "0 \<le> l" "l \<le> 1"
    by (simp_all add: l_def)
  have d': "date \<le> DaysInMonth m l"
    using d(2) by (simp add: l_def)
  have mm: "m div 12 = 0" "m mod 12 = m"
    using m by simp_all
  have day: "Day ?t = DayFromYear y + w"
    using x by (simp add: Day_MakeDate MakeDay_def Let_def mm w_def l_def)
  have cases: "m = 0 \<or> m = 1 \<or> m = 2 \<or> m = 3 \<or> m = 4 \<or> m = 5 \<or> m = 6 \<or> m = 7 \<or>
      m = 8 \<or> m = 9 \<or> m = 10 \<or> m = 11"
    using m by arith
  have w: "0 \<le> w \<and> w < 365 + l"
    using cases d(1) d' lr unfolding w_def
    by (elim disjE) (simp_all add: month_start_def DaysInMonth_def)
  show y: "YearFromTime ?t = y"
    using w by (intro YearFromTime_unique) (simp_all add: day DayFromYear_next l)
  have leap: "InLeapYear ?t = l"
    by (simp add: InLeapYear_def y l_def)
  have within: "DayWithinYear ?t = w"
    by (simp add: DayWithinYear_def y day)
  show mo: "MonthFromTime ?t = m"
    unfolding MonthFromTime_def Let_def leap within w_def
    using cases d(1) d' lr
    by (elim disjE) (simp_all add: month_start_def DaysInMonth_def)
  show "DateFromTime ?t = date"
    by (simp add: DateFromTime_month_start mo leap within w_def)
qed

lemma wall_clock_read_back:
  assumes "1 \<le> month" "month \<le> 12" "1 \<le> date"
    and "date \<le> DaysInMonth (month - 1) (if DaysInYear year = 366 then 1 else 0)"
    and "0 \<le> hour" "hour \<le> 23" "0 \<le> minute" "minute \<le> 59"
  shows "YearFromTime (LocalTime tza (wall_clock tza year month date hour minute)) = year"
    and "MonthFromTime (LocalTime tza (wall_clock tza year month date hour minute)) = month - 1"
    and "DateFromTime (LocalTime tza (wall_clock tza year month date hour minute)) = date"
    and "HourFromTime (LocalTime tza (wall_clock tza year month date hour minute)) = hour"
    and "MinFromTime (LocalTime tza (wall_clock tza year month date hour minute)) = minute"
proof -
  have l: "LocalTime tza (wall_clock tza year month date hour minute) =
      MakeDate (MakeDay year (month - 1) date) (MakeTime hour minute 0 0)"
    by (simp add: wall_clock_def LocalTime_def UTC_def)
  have x: "0 \<le> MakeTime hour minute 0 0" "MakeTime hour minute 0 0 < msPerDay"
    using MakeTime_range [OF assms(5-8)] by (simp_all add: msPerDay_def)
  have m: "0 \<le> month - 1" "month - 1 \<le> 11"
    using assms(1,2) by simp_all
  show "YearFromTime (LocalTime tza (wall_clock tza year month date hour minute)) = year"
    unfolding l using m assms(3,4) x by (rule calendar_date_read_back)
  show "MonthFromTime (LocalTime tza (wall_clock tza year month date hour minute)) = month - 1"
    unfolding l using m assms(3,4) x by (rule calendar_date_read_back)
  show "DateFromTime (LocalTime tza (wall_clock tza year month date hour minute)) = date"
    unfolding l using m assms(3,4) x by (rule calendar_date_read_back)
  show "HourFromTime (LocalTime tza (wall_clock tza year month date hour minute)) = hour"
    unfolding l using assms(5-8) by (rule fields_of_local)
  show "MinFromTime (LocalTime tza (wall_clock tza year month date hour minute)) = minute"
    unfolding l using assms(5-8) by (rule fields_of_local)
qed

subsection \<open>Facts of the time of day\<close>

lemma digit_not_colon: "char_in CHR ''0'' CHR ''9'' c \<Longrightarrow> c \<noteq> CHR '':''"
  by (auto simp add: char_in_def)

lemma char_in_widen:
  "char_in CHR ''0'' hi c \<Longrightarrow> (of_char hi :: nat) \<le> 57 \<Longrightarrow> char_in CHR ''0'' CHR ''9'' c"
  by (simp add: char_in_def)

lemma digit_value_range:
  "char_in CHR ''0'' hi c \<Longrightarrow> 0 \<le> digit_value c \<and> digit_value c \<le> int (of_char hi) - 48"
  by (simp add: char_in_def digit_value_def)

lemma split_on_1_2:
  assumes "h \<noteq> CHR '':''" "m1 \<noteq> CHR '':''" "m2 \<noteq> CHR '':''"
  shows "split_on CHR '':'' [h, CHR '':'', m1, m2] = [[h], [m1, m2]]"
  using assms by simp

lemma split_on_2_2:
  assumes "h1 \<noteq> CHR '':''" "h2 \<noteq> CHR '':''" "m1 \<noteq> CHR '':''" "m2 \<noteq> CHR '':''"
  shows "split_on CHR '':'' [h1, h2, CHR '':'', m1, m2] = [[h1, h2], [m1, m2]]"
  using assms by simp

lemma Number_1: "char_in CHR ''0'' CHR ''9'' c \<Longrightarrow> Number [c] = Some (digit_value c)"
  by (simp add: Number_def)

lemma Number_2:
  "char_in CHR ''0'' CHR ''9'' c \<Longrightarrow> char_in CHR ''0'' CHR ''9'' d \<Longrightarrow>
   Number [c, d] = Some (10 * digit_value c + digit_value d)"
  by (simp add: Number_def)

lemma minutes_range:
  assumes "char_in CHR ''0'' CHR ''5'' m1" "char_in CHR ''0'' CHR ''9'' m2"
  shows "Number [m1, m2] = Some (10 * digit_value m1 + digit_value m2) \<and>
         0 \<le> 10 * digit_value m1 + digit_value m2 \<and> 10 * digit_value m1 + digit_value m2 \<le> 59"
proof -
  have 1: "char_in CHR ''0'' CHR ''9'' m1" using assms(1) by (rule char_in_widen) simp
  have "0 \<le> digit_value m1 \<and> digit_value m1 \<le> 5" using digit_value_range [OF assms(1)] by simp
  moreover have "0 \<le> digit_value m2 \<and> digit_value m2 \<le> 9" using digit_value_range [OF assms(2)] by simp
  ultimately show ?thesis using Number_2 [OF 1 assms(2)] by simp
qed

lemma matches_time_parts:
  assumes "matches_time s"
  shows "\<exists>h m. time_parts s = Some (h, m) \<and> 0 \<le> h \<and> h \<le> 23 \<and> 0 \<le> m \<and> m \<le> 59"
  using assms
proof (cases s rule: matches_time.cases)
  case (1 h c m1 m2)
  with assms have h: "char_in CHR ''0'' CHR ''9'' h" and c: "c = CHR '':''"
    and m1: "char_in CHR ''0'' CHR ''5'' m1" and m2: "char_in CHR ''0'' CHR ''9'' m2"
    by simp_all
  have m1': "char_in CHR ''0'' CHR ''9'' m1" using m1 by (rule char_in_widen) simp
  have sp: "split_on CHR '':'' s = [[h], [m1, m2]]"
    unfolding 1 c using h m1' m2 by (intro split_on_1_2 digit_not_colon)
  have "0 \<le> digit_value h \<and> digit_value h \<le> 9" using digit_value_range [OF h] by simp
  then show ?thesis
    using minutes_range [OF m1 m2] Number_1 [OF h] by (simp add: time_parts_def sp)
next
  case (2 h1 h2 c m1 m2)
  with assms have hh: "(char_in CHR ''0'' CHR ''1'' h1 \<and> char_in CHR ''0'' CHR ''9'' h2) \<or>
       (h1 = CHR ''2'' \<and> char_in CHR ''0'' CHR ''3'' h2)" and c: "c = CHR '':''"
    and m1: "char_in CHR ''0'' CHR ''5'' m1" and m2: "char_in CHR ''0'' CHR ''9'' m2"
    by simp_all
  have m1': "char_in CHR ''0'' CHR ''9'' m1" using m1 by (rule char_in_widen) simp
  from hh have h1: "char_in CHR ''0'' CHR ''9'' h1" and h2: "char_in CHR ''0'' CHR ''9'' h2"
    by (auto simp add: char_in_def)
  have sp: "split_on CHR '':'' s = [[h1, h2], [m1, m2]]"
    unfolding 2 c using h1 h2 m1' m2 by (intro split_on_2_2 digit_not_colon)
  from hh have "0 \<le> 10 * digit_value h1 + digit_value h2 \<and> 10 * digit_value h1 + digit_value h2 \<le> 23"
    by (auto simp add: char_in_def digit_value_def)
  then show ?thesis
    using minutes_range [OF m1 m2] Number_2 [OF h1 h2] by (simp add: time_parts_def sp)
qed (use assms in simp_all)

subsection \<open>Facts of the methods\<close>

lemma calculateNextTrigger_parts:
  assumes "time_parts (time a) = Some (h, m)"
  shows "calculateNextTrigger tza a now fresh =
     Some (a\<lparr>nextTrigger := Some
       (if setHours tza fresh h m 0 0 \<le> now then setHours tza fresh h m 0 0 + msPerDay
        else setHours tza fresh h m 0 0)\<rparr>)"
  using assms setDate_getDate_plus [of tza "setHours tza fresh h m 0 0" 1]
  by (simp add: calculateNextTrigger_def Let_def)

lemma setHours_next_day_after:
  assumes "0 \<le> h" "0 \<le> m"
  shows "t < setHours tza t h m 0 0 + msPerDay"
proof -
  have "0 \<le> MakeTime h m 0 0" using assms by (simp add: MakeTime_hm)
  then show ?thesis
    using Day_bounds [of "LocalTime tza t"]
    by (simp add: setHours_def UTC_def LocalTime_def MakeDate_def)
qed

lemma setHours_at_time_of_day:
  "setHours tza t h m 0 0 = at_time_of_day tza (Day (LocalTime tza t)) h m"
  by (simp add: setHours_def at_time_of_day_def)

lemma at_time_of_day_next: "at_time_of_day tza d h m + msPerDay = at_time_of_day tza (d + 1) h m"
  by (simp add: at_time_of_day_def UTC_def MakeDate_def algebra_simps)





lemma Day_mono: "s \<le> t \<Longrightarrow> Day s \<le> Day t"
  unfolding Day_def msPerDay_def by (rule zdiv_mono1) simp_all

lemma Day_plus_msPerDay: "Day (t + msPerDay) = Day t + 1"
  by (simp add: Day_def msPerDay_def)

lemma calculateNextTrigger_second_reading:
  assumes "matches_time (time a)" and "now \<le> fresh" and "fresh < now + msPerMinute"
  shows "calculateNextTrigger tza a now fresh = calculateNextTrigger tza a now now"
proof -
  from matches_time_parts [OF assms(1)] obtain h m
    where p: "time_parts (time a) = Some (h, m)"
      and r: "0 \<le> h" "h \<le> 23" "0 \<le> m" "m \<le> 59"
    by blast
  define d1 d2 where "d1 = Day (LocalTime tza now)" and "d2 = Day (LocalTime tza fresh)"
  define x where "x = MakeTime h m 0 0"
  have x: "0 \<le> x" "x \<le> 86340000"
    using MakeTime_range [OF r] by (simp_all add: x_def)
  have at: "at_time_of_day tza d h m = d * msPerDay + x - tza" for d
    by (simp add: at_time_of_day_def UTC_def MakeDate_def x_def)
  show ?thesis
  proof (cases "d2 = d1")
    case True
    then show ?thesis
      by (simp add: calculateNextTrigger_parts [OF p] setHours_at_time_of_day d1_def d2_def)
  next
    case False
    have "d1 \<le> d2"
      unfolding d1_def d2_def using assms(2) by (intro Day_mono) (simp add: LocalTime_def)
    moreover have "d2 \<le> Day (LocalTime tza now + msPerDay)"
      unfolding d2_def using assms(3)
      by (intro Day_mono) (simp add: LocalTime_def msPerMinute_def msPerDay_def)
    ultimately have d2: "d2 = d1 + 1"
      using False by (simp add: Day_plus_msPerDay d1_def)
    have b1: "now + tza < d1 * msPerDay + msPerDay"
      using Day_bounds [of "LocalTime tza now"] by (simp add: d1_def LocalTime_def)
    have "d2 * msPerDay \<le> fresh + tza"
      using Day_bounds [of "LocalTime tza fresh"] by (simp add: d2_def LocalTime_def)
    then have b2: "d1 * msPerDay + msPerDay \<le> fresh + tza"
      by (simp add: d2 algebra_simps)
    have passed: "at_time_of_day tza d1 h m \<le> now"
      using b2 assms(3) x by (simp add: at msPerMinute_def msPerDay_def)
    have ahead: "\<not> at_time_of_day tza (d1 + 1) h m \<le> now"
      using b1 x by (simp add: at algebra_simps)
    have "calculateNextTrigger tza a now now =
        Some (a\<lparr>nextTrigger := Some (at_time_of_day tza (d1 + 1) h m)\<rparr>)"
      using passed
      by (simp add: calculateNextTrigger_parts [OF p] setHours_at_time_of_day
          d1_def [symmetric] at_time_of_day_next)
    moreover have "calculateNextTrigger tza a now fresh =
        Some (a\<lparr>nextTrigger := Some (at_time_of_day tza (d1 + 1) h m)\<rparr>)"
      using ahead
      by (simp add: calculateNextTrigger_parts [OF p] setHours_at_time_of_day
          d2_def [symmetric] d2)
    ultimately show ?thesis
      by simp
  qed
qed

lemma snooze_throws:
  "maxSnoozes a \<le> currentSnoozes a \<Longrightarrow>
   snooze tza a now = (Threw (Error ''Maximum snoozes reached''), a)"
  by (simp add: snooze_def)

lemma snooze_returns:
  "currentSnoozes a < maxSnoozes a \<Longrightarrow>
   snooze tza a now =
     (Returned, a\<lparr>currentSnoozes := currentSnoozes a + 1,
                   nextTrigger := Some (now + snoozeTime a * msPerMinute)\<rparr>)"
  by (simp add: snooze_def setMinutes_getMinutes_plus)

lemma snooze_calls_within_limit:
  "currentSnoozes a + int (length nows) \<le> maxSnoozes a \<Longrightarrow>
   \<exists>a'. snooze_calls tza a nows = (Returned, a') \<and>
        currentSnoozes a' = currentSnoozes a + int (length nows) \<and>
        maxSnoozes a' = maxSnoozes a \<and> isActive a' = isActive a \<and>
        snoozeTime a' = snoozeTime a \<and>
        nextTrigger a' =
          (if nows = [] then nextTrigger a else Some (last nows + snoozeTime a * msPerMinute))"
proof (induction nows arbitrary: a)
  case Nil
  then show ?case by simp
next
  case (Cons now later)
  let ?b = "a\<lparr>currentSnoozes := currentSnoozes a + 1,
               nextTrigger := Some (now + snoozeTime a * msPerMinute)\<rparr>"
  from Cons.prems have lt: "currentSnoozes a < maxSnoozes a"
    by simp
  from Cons.prems have "currentSnoozes ?b + int (length later) \<le> maxSnoozes ?b"
    by simp
  from Cons.IH [OF this] obtain a' where
    "snooze_calls tza ?b later = (Returned, a')"
    "currentSnoozes a' = currentSnoozes ?b + int (length later)"
    "maxSnoozes a' = maxSnoozes ?b" "isActive a' = isActive ?b" "snoozeTime a' = snoozeTime ?b"
    "nextTrigger a' =
       (if later = [] then nextTrigger ?b else Some (last later + snoozeTime ?b * msPerMinute))"
    by blast
  then show ?case
    by (simp add: snooze_returns [OF lt])
qed

lemma markTriggered_sets:
  assumes "matches_time (time a)" and "now \<le> fresh"
  shows "\<exists>n. markTriggered tza a triggered now fresh =
            Some (a\<lparr>lastTriggered := Some triggered, currentSnoozes := 0,
                    nextTrigger := Some n\<rparr>) \<and> now < n"
proof -
  let ?b = "a\<lparr>lastTriggered := Some triggered, currentSnoozes := 0\<rparr>"
  from matches_time_parts [OF assms(1)] obtain h m
    where p: "time_parts (time ?b) = Some (h, m)" and r: "0 \<le> h" "0 \<le> m"
    by auto
  let ?T = "setHours tza fresh h m 0 0"
  have "fresh < ?T + msPerDay"
    using r by (rule setHours_next_day_after)
  with assms(2) have "now < (if ?T \<le> now then ?T + msPerDay else ?T)"
    by simp
  with calculateNextTrigger_parts [OF p, of tza now fresh] show ?thesis
    unfolding markTriggered_def by blast
qed




section \<open>The claims\<close>

subsection \<open>The next trigger\<close>

text \<open>
  C1. For every alert whose \<^verbatim>\<open>time\<close> has the schema's format, and every clock on which the
  second reading of \<^verbatim>\<open>calculateNextTrigger\<close> is not before its first, the method
  sets \<^verbatim>\<open>nextTrigger\<close> to an instant strictly after \<open>now\<close>, the reading it compares
  against; the instant is never equal to \<open>now\<close>.
\<close>

theorem calculateNextTrigger_after_now:
  assumes "matches_time (time a)" and "now \<le> fresh"
  shows "\<exists>n. calculateNextTrigger tza a now fresh = Some (a\<lparr>nextTrigger := Some n\<rparr>) \<and> now < n"
proof -
  from matches_time_parts [OF assms(1)] obtain h m
    where p: "time_parts (time a) = Some (h, m)" and r: "0 \<le> h" "0 \<le> m"
    by blast
  let ?T = "setHours tza fresh h m 0 0"
  have "fresh < ?T + msPerDay"
    using r by (rule setHours_next_day_after)
  with assms(2) have "now < (if ?T \<le> now then ?T + msPerDay else ?T)"
    by simp
  with calculateNextTrigger_parts [OF p] show ?thesis
    by blast
qed

text \<open>
  At eight o'clock sharp the trigger of an alert for 08:00 is the next morning's.
\<close>

theorem calculateNextTrigger_after_now_witness:
  "matches_time (time morning_alert) \<and>
   wall_clock 0 2024 1 1 8 0 \<le> wall_clock 0 2024 1 1 8 0 \<and>
   (\<exists>n. calculateNextTrigger 0 morning_alert (wall_clock 0 2024 1 1 8 0) (wall_clock 0 2024 1 1 8 0)
          = Some (morning_alert\<lparr>nextTrigger := Some n\<rparr>) \<and>
        wall_clock 0 2024 1 1 8 0 < n) \<and>
   calculateNextTrigger 0 morning_alert (wall_clock 0 2024 1 1 8 0) (wall_clock 0 2024 1 1 8 0)
     = Some (morning_alert\<lparr>nextTrigger := Some (wall_clock 0 2024 1 2 8 0)\<rparr>)"
proof -
  have h1: "matches_time (time morning_alert)"
    by (simp add: morning_alert_def char_in_def)
  have h2: "wall_clock 0 2024 1 1 8 0 \<le> wall_clock 0 2024 1 1 8 0"
    by simp
  have v: "calculateNextTrigger 0 morning_alert (wall_clock 0 2024 1 1 8 0) (wall_clock 0 2024 1 1 8 0)
     = Some (morning_alert\<lparr>nextTrigger := Some (wall_clock 0 2024 1 2 8 0)\<rparr>)"
    by code_simp
  show ?thesis
    using h1 h2 v calculateNextTrigger_after_now [OF h1 h2, of 0] by simp
qed









text \<open>
  C10, as the specification states it, fails. The method is passed no \<open>now\<close>: it reads
  the clock, and it reads it a second time for the date it builds the trigger on. Two calls
  on the same alert with the same \<open>now\<close>, two minutes before midnight, differ when the
  second reading of one of them falls after midnight.
\<close>

theorem hidden_clock_read_counterexample:
  "wall_clock 0 2024 1 1 23 58 \<le> wall_clock 0 2024 1 2 0 0 \<and>
   calculateNextTrigger 0 (morning_alert\<lparr>time := ''23:59''\<rparr>)
       (wall_clock 0 2024 1 1 23 58) (wall_clock 0 2024 1 1 23 58)
     = Some (morning_alert\<lparr>time := ''23:59'', nextTrigger := Some (wall_clock 0 2024 1 1 23 59)\<rparr>) \<and>
   calculateNextTrigger 0 (morning_alert\<lparr>time := ''23:59''\<rparr>)
       (wall_clock 0 2024 1 1 23 58) (wall_clock 0 2024 1 2 0 0)
     = Some (morning_alert\<lparr>time := ''23:59'', nextTrigger := Some (wall_clock 0 2024 1 2 23 59)\<rparr>) \<and>
   wall_clock 0 2024 1 1 23 59 \<noteq> wall_clock 0 2024 1 2 23 59"
  by code_simp

text \<open>
  C10, amended. The result of \<^verbatim>\<open>calculateNextTrigger\<close> is a function of the alert and of
  the two clock readings the method makes. Two calls on the same alert whose first reading
  is the same instant \<open>now\<close> return the same document, hence the same instant, whenever
  the second reading of each call is not before \<open>now\<close> and less than one minute after it,
  midnight between the readings included.
\<close>

theorem calculateNextTrigger_same_inputs:
  assumes "matches_time (time a)"
    and "now \<le> fresh1" and "fresh1 < now + msPerMinute"
    and "now \<le> fresh2" and "fresh2 < now + msPerMinute"
  shows "calculateNextTrigger tza a now fresh1 = calculateNextTrigger tza a now fresh2"
  using calculateNextTrigger_second_reading [OF assms(1,2,3)]
    calculateNextTrigger_second_reading [OF assms(1,4,5)]
  by simp

theorem calculateNextTrigger_same_inputs_witness:
  "matches_time (time (morning_alert\<lparr>time := ''23:59''\<rparr>)) \<and>
   wall_clock 0 2024 1 1 23 59 + 59990 \<le> wall_clock 0 2024 1 1 23 59 + 59995 \<and>
   wall_clock 0 2024 1 1 23 59 + 59995 < wall_clock 0 2024 1 1 23 59 + 59990 + msPerMinute \<and>
   wall_clock 0 2024 1 1 23 59 + 59990 \<le> wall_clock 0 2024 1 2 0 0 + 2 \<and>
   wall_clock 0 2024 1 2 0 0 + 2 < wall_clock 0 2024 1 1 23 59 + 59990 + msPerMinute \<and>
   calculateNextTrigger 0 (morning_alert\<lparr>time := ''23:59''\<rparr>)
       (wall_clock 0 2024 1 1 23 59 + 59990) (wall_clock 0 2024 1 1 23 59 + 59995)
     = calculateNextTrigger 0 (morning_alert\<lparr>time := ''23:59''\<rparr>)
       (wall_clock 0 2024 1 1 23 59 + 59990) (wall_clock 0 2024 1 2 0 0 + 2) \<and>
   calculateNextTrigger 0 (morning_alert\<lparr>time := ''23:59''\<rparr>)
       (wall_clock 0 2024 1 1 23 59 + 59990) (wall_clock 0 2024 1 2 0 0 + 2)
     = Some (morning_alert\<lparr>time := ''23:59'', nextTrigger := Some (wall_clock 0 2024 1 2 23 59)\<rparr>)"
proof -
  let ?a = "morning_alert\<lparr>time := ''23:59''\<rparr>"
  have h1: "matches_time (time ?a)"
    by (simp add: char_in_def)
  have h2: "wall_clock 0 2024 1 1 23 59 + 59990 \<le> wall_clock 0 2024 1 1 23 59 + 59995"
    by simp
  have h3: "wall_clock 0 2024 1 1 23 59 + 59995 < wall_clock 0 2024 1 1 23 59 + 59990 + msPerMinute"
    by (simp add: msPerMinute_def)
  have h4: "wall_clock 0 2024 1 1 23 59 + 59990 \<le> wall_clock 0 2024 1 2 0 0 + 2"
    by code_simp
  have h5: "wall_clock 0 2024 1 2 0 0 + 2 < wall_clock 0 2024 1 1 23 59 + 59990 + msPerMinute"
    by code_simp
  have v: "calculateNextTrigger 0 ?a (wall_clock 0 2024 1 1 23 59 + 59990) (wall_clock 0 2024 1 2 0 0 + 2)
     = Some (morning_alert\<lparr>time := ''23:59'', nextTrigger := Some (wall_clock 0 2024 1 2 23 59)\<rparr>)"
    by code_simp
  show ?thesis
    using h1 h2 h3 h4 h5 v calculateNextTrigger_same_inputs [OF h1 h2 h3 h4 h5, of 0]
    by simp
qed

subsection \<open>Snoozing\<close>

text \<open>
  C5. \<^verbatim>\<open>snooze\<close> throws its error, \<^verbatim>\<open>Error('Maximum snoozes reached')\<close> (the
  specification's SnoozeLimitExceededError), exactly when \<^verbatim>\<open>currentSnoozes\<close> is at least
  \<^verbatim>\<open>maxSnoozes\<close>, and returns otherwise; when it throws, the document is as it was. This
  holds of every alert, the armed ones among them. Hence from a fresh active alert with
  \<^verbatim>\<open>currentSnoozes\<close> 0, the first \<^verbatim>\<open>maxSnoozes\<close> calls return: before the last of them
  the status is \<open>active\<close>, after it the status is \<open>overdue\<close>, and one more call throws and
  leaves the document as it was.
\<close>

theorem snooze_limit:
  "(fst (snooze tza a now) = Threw (Error ''Maximum snoozes reached'') \<longleftrightarrow>
      maxSnoozes a \<le> currentSnoozes a) \<and>
   (fst (snooze tza a now) = Returned \<longleftrightarrow> currentSnoozes a < maxSnoozes a) \<and>
   (maxSnoozes a \<le> currentSnoozes a \<longrightarrow> snd (snooze tza a now) = a) \<and>
   (isActive a \<and> currentSnoozes a = 0 \<and> int (length nows) = maxSnoozes a \<longrightarrow>
      (\<forall>k < length nows. \<exists>b. snooze_calls tza a (take k nows) = (Returned, b) \<and>
          currentSnoozes b = int k \<and> status b = active) \<and>
      (\<exists>a'. snooze_calls tza a nows = (Returned, a') \<and>
          currentSnoozes a' = maxSnoozes a \<and> status a' = overdue \<and>
          snooze tza a' later = (Threw (Error ''Maximum snoozes reached''), a')))"
proof (intro conjI impI allI)
  show "fst (snooze tza a now) = Threw (Error ''Maximum snoozes reached'') \<longleftrightarrow>
      maxSnoozes a \<le> currentSnoozes a"
    by (simp add: snooze_def)
  show "fst (snooze tza a now) = Returned \<longleftrightarrow> currentSnoozes a < maxSnoozes a"
    by (simp add: snooze_def)
  show "snd (snooze tza a now) = a" if "maxSnoozes a \<le> currentSnoozes a"
    using that by (simp add: snooze_def)
next
  fix k
  assume f: "isActive a \<and> currentSnoozes a = 0 \<and> int (length nows) = maxSnoozes a"
    and k: "k < length nows"
  then have "currentSnoozes a + int (length (take k nows)) \<le> maxSnoozes a"
    by simp
  from snooze_calls_within_limit [OF this, of tza] obtain b where
    "snooze_calls tza a (take k nows) = (Returned, b)"
    "currentSnoozes b = currentSnoozes a + int (length (take k nows))"
    "maxSnoozes b = maxSnoozes a" "isActive b = isActive a"
    by blast
  with f k show "\<exists>b. snooze_calls tza a (take k nows) = (Returned, b) \<and>
          currentSnoozes b = int k \<and> status b = active"
    by (simp add: status_def)
next
  assume f: "isActive a \<and> currentSnoozes a = 0 \<and> int (length nows) = maxSnoozes a"
  then have "currentSnoozes a + int (length nows) \<le> maxSnoozes a"
    by simp
  from snooze_calls_within_limit [OF this, of tza] obtain a' where
    a': "snooze_calls tza a nows = (Returned, a')"
    "currentSnoozes a' = currentSnoozes a + int (length nows)"
    "maxSnoozes a' = maxSnoozes a" "isActive a' = isActive a"
    by blast
  with f have "maxSnoozes a' \<le> currentSnoozes a'"
    by simp
  from snooze_throws [OF this] a' f
  show "\<exists>a'. snooze_calls tza a nows = (Returned, a') \<and>
          currentSnoozes a' = maxSnoozes a \<and> status a' = overdue \<and>
          snooze tza a' later = (Threw (Error ''Maximum snoozes reached''), a')"
    by (simp add: status_def)
qed

text \<open>Three snoozes of the eight o'clock alert, and a fourth.\<close>

theorem snooze_limit_witness:
  "isActive morning_alert \<and> currentSnoozes morning_alert = 0 \<and>
   int (length [wall_clock 0 2024 1 1 8 0, wall_clock 0 2024 1 1 8 15, wall_clock 0 2024 1 1 8 30])
     = maxSnoozes morning_alert \<and>
   (\<exists>a'. snooze_calls 0 morning_alert
            [wall_clock 0 2024 1 1 8 0, wall_clock 0 2024 1 1 8 15, wall_clock 0 2024 1 1 8 30]
          = (Returned, a') \<and>
        currentSnoozes a' = maxSnoozes morning_alert \<and> status a' = overdue \<and>
        snooze 0 a' (wall_clock 0 2024 1 1 8 45) = (Threw (Error ''Maximum snoozes reached''), a')) \<and>
   snooze_calls 0 morning_alert
       [wall_clock 0 2024 1 1 8 0, wall_clock 0 2024 1 1 8 15, wall_clock 0 2024 1 1 8 30,
        wall_clock 0 2024 1 1 8 45]
     = (Threw (Error ''Maximum snoozes reached''),
        morning_alert\<lparr>currentSnoozes := 3, nextTrigger := Some (wall_clock 0 2024 1 1 8 45)\<rparr>)"
proof -
  let ?nows = "[wall_clock 0 2024 1 1 8 0, wall_clock 0 2024 1 1 8 15, wall_clock 0 2024 1 1 8 30]"
  have h: "isActive morning_alert \<and> currentSnoozes morning_alert = 0 \<and>
      int (length ?nows) = maxSnoozes morning_alert"
    by (simp add: morning_alert_def)
  have v: "snooze_calls 0 morning_alert
       [wall_clock 0 2024 1 1 8 0, wall_clock 0 2024 1 1 8 15, wall_clock 0 2024 1 1 8 30,
        wall_clock 0 2024 1 1 8 45]
     = (Threw (Error ''Maximum snoozes reached''),
        morning_alert\<lparr>currentSnoozes := 3, nextTrigger := Some (wall_clock 0 2024 1 1 8 45)\<rparr>)"
    by code_simp
  from snooze_limit [of 0 morning_alert "wall_clock 0 2024 1 1 8 0" ?nows "wall_clock 0 2024 1 1 8 45"] h
  have "\<exists>a'. snooze_calls 0 morning_alert ?nows = (Returned, a') \<and>
        currentSnoozes a' = maxSnoozes morning_alert \<and> status a' = overdue \<and>
        snooze 0 a' (wall_clock 0 2024 1 1 8 45) = (Threw (Error ''Maximum snoozes reached''), a')"
    by blast
  with h v show ?thesis
    by blast
qed






subsection \<open>Firing\<close>

text \<open>
  C7, as the specification states it, fails where \<^verbatim>\<open>maxSnoozes\<close> is 0, which the schema
  admits: such an active alert is overdue, and it is overdue again after
  \<^verbatim>\<open>markTriggered\<close>, since 0 snoozes are not fewer than the 0 allowed.
\<close>

theorem markTriggered_overdue_counterexample:
  "status (morning_alert\<lparr>maxSnoozes := 0\<rparr>) = overdue \<and>
   markTriggered 0 (morning_alert\<lparr>maxSnoozes := 0\<rparr>)
       (wall_clock 0 2024 1 1 8 0) (wall_clock 0 2024 1 1 8 0) (wall_clock 0 2024 1 1 8 0)
     = Some (morning_alert\<lparr>maxSnoozes := 0, lastTriggered := Some (wall_clock 0 2024 1 1 8 0),
                           nextTrigger := Some (wall_clock 0 2024 1 2 8 0)\<rparr>) \<and>
   status (morning_alert\<lparr>maxSnoozes := 0, lastTriggered := Some (wall_clock 0 2024 1 1 8 0),
                         nextTrigger := Some (wall_clock 0 2024 1 2 8 0)\<rparr>) = overdue \<and>
   overdue \<noteq> active"
  by code_simp

text \<open>
  C7, amended. For every alert whose status is \<open>active\<close> or \<open>overdue\<close> and whose \<^verbatim>\<open>time\<close>
  has the schema's format, on a clock that does not run backwards, \<^verbatim>\<open>markTriggered\<close>
  sets \<^verbatim>\<open>lastTriggered\<close> to its clock reading, \<^verbatim>\<open>currentSnoozes\<close> to 0 and
  \<^verbatim>\<open>nextTrigger\<close> to a later instant, and changes nothing else. The status it leaves is
  \<open>active\<close> when \<^verbatim>\<open>maxSnoozes\<close> is positive, whichever of the two it was before, and
  \<open>overdue\<close> when \<^verbatim>\<open>maxSnoozes\<close> is 0.
\<close>

theorem markTriggered_effect:
  assumes "status a = active \<or> status a = overdue"
    and "matches_time (time a)" and "triggered \<le> now" and "now \<le> fresh"
  shows "\<exists>n. markTriggered tza a triggered now fresh =
            Some (a\<lparr>lastTriggered := Some triggered, currentSnoozes := 0,
                    nextTrigger := Some n\<rparr>) \<and>
           triggered < n \<and>
           status (a\<lparr>lastTriggered := Some triggered, currentSnoozes := 0,
                     nextTrigger := Some n\<rparr>)
             = (if 0 < maxSnoozes a then active else overdue)"
proof -
  from assms(1) have "isActive a"
    by (auto simp add: status_def split: if_splits)
  then have "status (a\<lparr>lastTriggered := Some triggered, currentSnoozes := 0,
                     nextTrigger := Some n\<rparr>)
             = (if 0 < maxSnoozes a then active else overdue)" for n
    by (simp add: status_def)
  with markTriggered_sets [OF assms(2,4), of tza triggered] assms(3) show ?thesis
    by fastforce
qed

text \<open>The eight o'clock alert, overdue after three snoozes, fired at 08:45.\<close>

theorem markTriggered_effect_witness:
  "(status (morning_alert\<lparr>currentSnoozes := 3\<rparr>) = active \<or>
    status (morning_alert\<lparr>currentSnoozes := 3\<rparr>) = overdue) \<and>
   matches_time (time (morning_alert\<lparr>currentSnoozes := 3\<rparr>)) \<and>
   wall_clock 0 2024 1 1 8 45 \<le> wall_clock 0 2024 1 1 8 45 + 1 \<and>
   wall_clock 0 2024 1 1 8 45 + 1 \<le> wall_clock 0 2024 1 1 8 45 + 2 \<and>
   (\<exists>n. markTriggered 0 (morning_alert\<lparr>currentSnoozes := 3\<rparr>)
            (wall_clock 0 2024 1 1 8 45) (wall_clock 0 2024 1 1 8 45 + 1)
            (wall_clock 0 2024 1 1 8 45 + 2)
          = Some (morning_alert\<lparr>currentSnoozes := 3,
                    lastTriggered := Some (wall_clock 0 2024 1 1 8 45), currentSnoozes := 0,
                    nextTrigger := Some n\<rparr>) \<and>
        wall_clock 0 2024 1 1 8 45 < n \<and>
        status (morning_alert\<lparr>currentSnoozes := 3,
                    lastTriggered := Some (wall_clock 0 2024 1 1 8 45), currentSnoozes := 0,
                    nextTrigger := Some n\<rparr>) = active) \<and>
   status (morning_alert\<lparr>currentSnoozes := 3\<rparr>) = overdue \<and>
   markTriggered 0 (morning_alert\<lparr>currentSnoozes := 3\<rparr>)
       (wall_clock 0 2024 1 1 8 45) (wall_clock 0 2024 1 1 8 45 + 1)
       (wall_clock 0 2024 1 1 8 45 + 2)
     = Some (morning_alert\<lparr>lastTriggered := Some (wall_clock 0 2024 1 1 8 45),
                           nextTrigger := Some (wall_clock 0 2024 1 2 8 0)\<rparr>)"
proof -
  let ?a = "morning_alert\<lparr>currentSnoozes := 3\<rparr>"
  have s: "status ?a = overdue"
    by code_simp
  then have h1: "status ?a = active \<or> status ?a = overdue"
    by simp
  have h2: "matches_time (time ?a)"
    by (simp add: morning_alert_def char_in_def)
  have h3: "wall_clock 0 2024 1 1 8 45 \<le> wall_clock 0 2024 1 1 8 45 + 1"
    by simp
  have h4: "wall_clock 0 2024 1 1 8 45 + 1 \<le> wall_clock 0 2024 1 1 8 45 + 2"
    by simp
  have m: "0 < maxSnoozes ?a"
    by (simp add: morning_alert_def)
  have v: "markTriggered 0 ?a (wall_clock 0 2024 1 1 8 45) (wall_clock 0 2024 1 1 8 45 + 1)
       (wall_clock 0 2024 1 1 8 45 + 2)
     = Some (morning_alert\<lparr>lastTriggered := Some (wall_clock 0 2024 1 1 8 45),
                           nextTrigger := Some (wall_clock 0 2024 1 2 8 0)\<rparr>)"
    by code_simp
  from markTriggered_effect [OF h1 h2 h3 h4, of 0] m
  have "\<exists>n. markTriggered 0 ?a (wall_clock 0 2024 1 1 8 45) (wall_clock 0 2024 1 1 8 45 + 1)
            (wall_clock 0 2024 1 1 8 45 + 2)
          = Some (?a\<lparr>lastTriggered := Some (wall_clock 0 2024 1 1 8 45), currentSnoozes := 0,
                    nextTrigger := Some n\<rparr>) \<and>
        wall_clock 0 2024 1 1 8 45 < n \<and>
        status (?a\<lparr>lastTriggered := Some (wall_clock 0 2024 1 1 8 45), currentSnoozes := 0,
                    nextTrigger := Some n\<rparr>) = active"
    by (simp only: if_True)
  with h1 h2 h3 h4 s v show ?thesis
    by blast
qed

subsection \<open>The count of snoozes\<close>



end
